theory Spec2Isabelle
  imports Complex_Main "HOL-Library.Word"
begin

section \<open>Frames and Python errors\<close>

text \<open>
  A frame is a numpy array of shape (height, width, 3) with dtype uint8: a list of rows,
  each a list of pixels, each pixel its three channel bytes in the order the array stores
  them.
\<close>

type_synonym pixel = "8 word \<times> 8 word \<times> 8 word"
type_synonym frame = "pixel list list"

datatype py_error = ValueError | ZeroDivisionError | IndexError | AVError | QueueFull | QueueEmpty

text \<open>\<^verbatim>\<open>np.zeros((height, width, 3), dtype=np.uint8)\<close>: numpy raises ValueError on a negative
  dimension.\<close>

definition np_zeros :: "int \<Rightarrow> int \<Rightarrow> py_error + frame" where
  "np_zeros height width =
     (if height < 0 \<or> width < 0 then Inl ValueError
      else Inr (replicate (nat height) (replicate (nat width) (0, 0, 0))))"

text \<open>A slice bound of Python, on an axis of length \<open>n\<close>: a negative bound counts from the
  end, and every bound is clipped to the axis.\<close>

definition slice_bound :: "int \<Rightarrow> int \<Rightarrow> nat" where
  "slice_bound n a = nat (if a < 0 then max 0 (a + n) else min a n)"

text \<open>\<^verbatim>\<open>frame[a:b, :] = color\<close>: every pixel of the rows \<open>a \<le> i < b\<close> becomes \<open>color\<close>.\<close>

definition assign_rows :: "int \<Rightarrow> int \<Rightarrow> pixel \<Rightarrow> frame \<Rightarrow> frame" where
  "assign_rows a b color fr =
     (let n = int (length fr); lo = slice_bound n a; hi = slice_bound n b
      in map (\<lambda>(i, row). if lo \<le> i \<and> i < hi then map (\<lambda>_. color) row else row)
           (enumerate 0 fr))"

text \<open>\<^verbatim>\<open>cv2.cvtColor(frame, cv2.COLOR_BGR2RGB)\<close> swaps the first and the third channel.\<close>

definition cvtColor_BGR2RGB :: "frame \<Rightarrow> frame" where
  "cvtColor_BGR2RGB fr = map (map (\<lambda>(b, g, r). (r, g, b))) fr"

section \<open>The placeholder generator: \<^verbatim>\<open>create_test_pattern\<close>\<close>

definition white :: pixel where "white = (255, 255, 255)"
definition yellow :: pixel where "yellow = (255, 255, 0)"
definition cyan :: pixel where "cyan = (0, 255, 255)"
definition green :: pixel where "green = (0, 255, 0)"
definition magenta :: pixel where "magenta = (255, 0, 255)"
definition red :: pixel where "red = (255, 0, 0)"
definition blue :: pixel where "blue = (0, 0, 255)"
definition black :: pixel where "black = (0, 0, 0)"

definition colors :: "pixel list" where
  "colors = [white, yellow, cyan, green, magenta, red, blue, black]"

text \<open>The loop \<^verbatim>\<open>for i, color in enumerate(colors): frame[i*bar_height:(i+1)*bar_height, :] = color\<close>.\<close>

fun paint_bars :: "int \<Rightarrow> (nat \<times> pixel) list \<Rightarrow> frame \<Rightarrow> frame" where
  "paint_bars bar_height [] fr = fr"
| "paint_bars bar_height ((i, color) # rest) fr =
     paint_bars bar_height rest
       (assign_rows (int i * bar_height) ((int i + 1) * bar_height) color fr)"

text \<open>
  The body of the \<^verbatim>\<open>try\<close> can only raise in \<^verbatim>\<open>np.zeros\<close>; the handler then returns
  \<^verbatim>\<open>np.zeros((height, width, 3))\<close> again, which is evaluated on the same arguments.
\<close>

definition create_test_pattern :: "int \<Rightarrow> int \<Rightarrow> py_error + frame" where
  "create_test_pattern width height =
     (let bar_height = height div 8 in
      case np_zeros height width of
        Inr fr \<Rightarrow> Inr (paint_bars bar_height (enumerate 0 colors) fr)
      | Inl e \<Rightarrow> np_zeros height width)"


section \<open>The sink thread: \<^verbatim>\<open>VirtualCamSendThread\<close>\<close>

text \<open>
  The device \<^verbatim>\<open>pyvirtualcam.Camera(width, height, fps)\<close>, with the frames it was sent. The
  source passes \<open>fps\<close> as the float \<^verbatim>\<open>frame_rate_n / frame_rate_d\<close>; the model keeps the exact
  quotient.
\<close>

record camera =
  cam_width :: int
  cam_height :: int
  cam_fps :: rat
  cam_frames :: "frame list"

text \<open>The fields of \<^verbatim>\<open>__init__\<close>; \<open>queue\<close> is \<^verbatim>\<open>queue.Queue(maxsize=1)\<close>, oldest first.\<close>

record vcam =
  queue :: "frame list"
  vc_running :: bool
  frame_rate_n :: "int option"
  frame_rate_d :: "int option"
  send_test_pattern :: bool
  test_pattern_resolution :: "int \<times> int"
  virtual_cam :: "camera option"

definition maxsize :: nat where
  "maxsize = 1"

definition vcam_init :: vcam where
  "vcam_init = \<lparr>queue = [], vc_running = True, frame_rate_n = None, frame_rate_d = None,
     send_test_pattern = True, test_pattern_resolution = (1920, 1080), virtual_cam = None\<rparr>"

text \<open>\<^verbatim>\<open>Queue.put_nowait\<close> raises Full when \<^verbatim>\<open>0 < maxsize <= qsize\<close>; \<^verbatim>\<open>Queue.get_nowait\<close>
  raises Empty on an empty queue.\<close>

definition put_nowait :: "frame list \<Rightarrow> frame \<Rightarrow> py_error + frame list" where
  "put_nowait q f = (if 0 < maxsize \<and> maxsize \<le> length q then Inl QueueFull else Inr (q @ [f]))"

definition get_nowait :: "frame list \<Rightarrow> py_error + frame \<times> frame list" where
  "get_nowait q = (case q of [] \<Rightarrow> Inl QueueEmpty | f # q' \<Rightarrow> Inr (f, q'))"

definition send_frame :: "vcam \<Rightarrow> frame \<Rightarrow> vcam" where
  "send_frame s f =
     (if send_test_pattern s then s
      else case put_nowait (queue s) f of
        Inr q' \<Rightarrow> s\<lparr>queue := q'\<rparr>
      | Inl _ \<Rightarrow>
          (let q1 = (case get_nowait (queue s) of Inr (_, q') \<Rightarrow> q' | Inl _ \<Rightarrow> queue s)
           in case put_nowait q1 f of
                Inr q2 \<Rightarrow> s\<lparr>queue := q2\<rparr>
              | Inl _ \<Rightarrow> s\<lparr>queue := q1\<rparr>))"

text \<open>
  \<^verbatim>\<open>set_frame_rate\<close>. The two fields are written first; the division raises when the
  denominator is zero; \<open>device_ok\<close> says whether \<^verbatim>\<open>pyvirtualcam.Camera(...)\<close> opens a device
  (its failure is caught and stops the thread). The result is the exception that leaves the
  method, if any, and the state.
\<close>

definition set_frame_rate :: "bool \<Rightarrow> int \<Rightarrow> int \<Rightarrow> vcam \<Rightarrow> py_error option \<times> vcam" where
  "set_frame_rate device_ok n d s =
     (let s1 = s\<lparr>frame_rate_n := Some n, frame_rate_d := Some d\<rparr> in
      if d = 0 then (Some ZeroDivisionError, s1)
      else case virtual_cam s1 of
        None \<Rightarrow>
          if device_ok
          then (None, s1\<lparr>virtual_cam := Some \<lparr>cam_width = fst (test_pattern_resolution s1),
                  cam_height = snd (test_pattern_resolution s1),
                  cam_fps = of_int n / of_int d, cam_frames = []\<rparr>\<rparr>)
          else (None, s1\<lparr>vc_running := False\<rparr>)
      | Some _ \<Rightarrow> (None, s1))"

definition enable_test_pattern :: "vcam \<Rightarrow> vcam" where
  "enable_test_pattern s = (if \<not> send_test_pattern s then s\<lparr>send_test_pattern := True\<rparr> else s)"

definition disable_test_pattern :: "vcam \<Rightarrow> vcam" where
  "disable_test_pattern s = (if send_test_pattern s then s\<lparr>send_test_pattern := False\<rparr> else s)"

text \<open>\<^verbatim>\<open>send_frame_to_virtual_cam\<close>: the frame, converted, goes to the device, which the model
  lets take every frame. The source catches and logs an exception of the library there; it
  has no other effect on the thread.\<close>

definition send_frame_to_virtual_cam :: "frame \<Rightarrow> vcam \<Rightarrow> vcam" where
  "send_frame_to_virtual_cam fr s =
     (case virtual_cam s of
        None \<Rightarrow> s
      | Some cam \<Rightarrow> s\<lparr>virtual_cam := Some (cam\<lparr>cam_frames := cam_frames cam @ [cvtColor_BGR2RGB fr]\<rparr>)\<rparr>)"

text \<open>\<^verbatim>\<open>self.queue.get(timeout=1)\<close> of the delivery loop: the oldest frame, or Empty once the
  timeout has passed with nothing queued.\<close>

definition take_frame :: "vcam \<Rightarrow> frame option \<times> vcam" where
  "take_frame s =
     (case get_nowait (queue s) of
        Inl _ \<Rightarrow> (None, s)
      | Inr (f, q') \<Rightarrow> (Some f, s\<lparr>queue := q'\<rparr>))"

text \<open>
  One turn of the loop of \<^verbatim>\<open>VirtualCamSendThread.run\<close>, entered with \<open>running\<close> true: the
  state after it and the frame given to \<^verbatim>\<open>virtual_cam_frame_sent_signal\<close>, if any. An
  exception of \<^verbatim>\<open>create_test_pattern\<close> is not caught in \<^verbatim>\<open>run\<close>.
\<close>

definition vc_run_step :: "vcam \<Rightarrow> py_error + vcam \<times> frame option" where
  "vc_run_step s =
     (case virtual_cam s of
        None \<Rightarrow> Inr (s, None)
      | Some _ \<Rightarrow>
          if send_test_pattern s then
            (case create_test_pattern (fst (test_pattern_resolution s))
                    (snd (test_pattern_resolution s)) of
               Inl e \<Rightarrow> Inl e
             | Inr fr \<Rightarrow> Inr (send_frame_to_virtual_cam fr s, Some fr))
          else
            (case take_frame s of
               (None, s') \<Rightarrow> Inr (s', None)
             | (Some fr, s') \<Rightarrow> Inr (send_frame_to_virtual_cam fr s', Some fr)))"

text \<open>A run of \<^verbatim>\<open>send_frame\<close> calls, in order.\<close>

definition submit_all :: "vcam \<Rightarrow> frame list \<Rightarrow> vcam" where
  "submit_all s fs = foldl send_frame s fs"



text \<open>What happens to the relay between two calls of one thread: the stream thread submits a
  frame, or the sink thread runs one turn of its loop.\<close>

datatype relay_op = Submit frame | SinkTurn

fun relay_step :: "vcam \<Rightarrow> relay_op \<Rightarrow> vcam" where
  "relay_step s (Submit f) = send_frame s f"
| "relay_step s SinkTurn = (case vc_run_step s of Inr (s', _) \<Rightarrow> s' | Inl _ \<Rightarrow> s)"

definition relay_steps :: "vcam \<Rightarrow> relay_op list \<Rightarrow> vcam" where
  "relay_steps s ops = foldl relay_step s ops"

section \<open>The stream thread: \<^verbatim>\<open>VideoThread\<close>\<close>

text \<open>What the environment gives the thread. A stream of the container advertises an average
  rate (a Fraction, numerator and denominator) or none.\<close>

record stream =
  average_rate :: "(int \<times> int) option"

datatype decode_result = DecodeError | Decoded "frame option list"

text \<open>A packet of \<^verbatim>\<open>container.demux()\<close>: its \<open>dts\<close>, what \<^verbatim>\<open>packet.decode()\<close> yields (each
  frame already as its \<^verbatim>\<open>bgr24\<close> array), and whether \<^verbatim>\<open>stop()\<close> cleared \<open>running\<close> while the
  thread waited for the packet.\<close>

record packet =
  dts :: "int option"
  decoded :: decode_result
  stop_requested :: bool

datatype demux_end = EndOfStream | DemuxError

record container =
  video_streams :: "stream list"
  packets :: "packet list"
  ending :: demux_end

datatype open_result = OpenFails | Opens container

text \<open>What the thread does that others see, in order: its five signals, its calls of the
  sink thread (\<^verbatim>\<open>set_frame_rate\<close>, \<^verbatim>\<open>send_frame\<close>), its sleeps (\<open>Sleep n\<close>: a call
  \<^verbatim>\<open>time.sleep(n)\<close> that has returned after its \<open>n\<close> seconds) and its calls of \<^verbatim>\<open>av.open\<close> and
  \<^verbatim>\<open>container.close\<close>.\<close>

datatype event =
    ConnectionLost
  | ConnectionEstablished
  | ReconnectionAttempt int
  | FrameReady frame
  | VirtualCamFrameReady frame
  | SetFrameRate int int
  | SendFrame frame
  | Sleep int
  | AvOpen
  | ContainerClose

text \<open>
  The fields of \<^verbatim>\<open>VideoThread.__init__\<close>, the sink thread it was given, the trace, and the
  environment: \<open>av_open i\<close> is the result of the \<open>i\<close>-th call of \<^verbatim>\<open>av.open\<close>, \<open>stop_in_sleep i\<close>
  says whether \<^verbatim>\<open>stop()\<close> cleared \<open>running\<close> during the \<open>i\<close>-th \<^verbatim>\<open>time.sleep\<close>, and
  \<open>camera_opens\<close> whether the virtual camera can be opened. The sink thread is the state
  the stream thread's own calls leave it in; turns of the sink thread's loop are not
  interleaved here.
\<close>

record video_thread =
  running :: bool
  connection_established :: bool
  container :: "container option"
  should_reconnect :: bool
  is_reconnecting :: bool
  initial_wait :: int
  max_wait :: int
  current_wait :: int
  virtual_cam_send_thread :: vcam
  events :: "event list"
  av_open :: "nat \<Rightarrow> open_result"
  opened :: nat
  stop_in_sleep :: "nat \<Rightarrow> bool"
  slept :: nat
  camera_opens :: bool

definition video_thread_init ::
  "vcam \<Rightarrow> (nat \<Rightarrow> open_result) \<Rightarrow> (nat \<Rightarrow> bool) \<Rightarrow> bool \<Rightarrow> video_thread" where
  "video_thread_init vc opens stops cam_ok =
     \<lparr>running = True, connection_established = False, container = None,
      should_reconnect = True, is_reconnecting = False,
      initial_wait = 1, max_wait = 32, current_wait = 1,
      virtual_cam_send_thread = vc, events = [],
      av_open = opens, opened = 0, stop_in_sleep = stops, slept = 0, camera_opens = cam_ok\<rparr>"

definition emit :: "event \<Rightarrow> video_thread \<Rightarrow> video_thread" where
  "emit e s = s\<lparr>events := events s @ [e]\<rparr>"

text \<open>\<^verbatim>\<open>time.sleep(seconds)\<close>: the whole duration passes; \<open>running\<close> may have been cleared
  meanwhile.\<close>

definition time_sleep :: "int \<Rightarrow> video_thread \<Rightarrow> video_thread" where
  "time_sleep seconds s =
     (emit (Sleep seconds) s)\<lparr>running := running s \<and> \<not> stop_in_sleep s (slept s),
        slept := Suc (slept s)\<rparr>"

text \<open>\<^verbatim>\<open>if self.container: self.container.close(); self.container = None\<close>.\<close>

definition close_container :: "video_thread \<Rightarrow> video_thread" where
  "close_container s =
     (case container s of
        None \<Rightarrow> s
      | Some c \<Rightarrow> (emit ContainerClose s)\<lparr>container := None\<rparr>)"

text \<open>The rate \<^verbatim>\<open>connect_stream\<close> resolves: \<^verbatim>\<open>if stream.average_rate\<close> is false for None and
  for a zero fraction.\<close>

definition resolve_rate :: "stream \<Rightarrow> int \<times> int" where
  "resolve_rate st =
     (case average_rate st of
        None \<Rightarrow> (25, 1)
      | Some (n, d) \<Rightarrow> if n \<noteq> 0 then (n, d) else (25, 1))"

text \<open>
  \<^verbatim>\<open>connect_stream\<close>. Both handlers of its \<^verbatim>\<open>try\<close> do the same: \<open>connection_established\<close>
  false, \<open>container\<close> None. \<^verbatim>\<open>streams.video[0]\<close> raises IndexError without a video stream, and
  an exception of \<^verbatim>\<open>set_frame_rate\<close> lands in the same handlers.
\<close>

definition connect_failed :: "video_thread \<Rightarrow> video_thread" where
  "connect_failed s = s\<lparr>connection_established := False, container := None\<rparr>"

definition connect_stream :: "video_thread \<Rightarrow> video_thread" where
  "connect_stream s0 =
     (let s1 = close_container s0;
          r = av_open s1 (opened s1);
          s2 = (emit AvOpen s1)\<lparr>opened := Suc (opened s1)\<rparr>
      in case r of
           OpenFails \<Rightarrow> connect_failed s2
         | Opens c \<Rightarrow>
             (let s3 = s2\<lparr>container := Some c\<rparr> in
              case video_streams c of
                [] \<Rightarrow> connect_failed s3
              | st # _ \<Rightarrow>
                  (let (n, d) = resolve_rate st;
                       (err, vc) = set_frame_rate (camera_opens s3) n d (virtual_cam_send_thread s3);
                       s4 = (emit (SetFrameRate n d) s3)\<lparr>virtual_cam_send_thread := vc\<rparr>
                   in case err of
                        Some e \<Rightarrow> connect_failed s4
                      | None \<Rightarrow>
                          (let s5 = emit ConnectionEstablished (s4\<lparr>connection_established := True\<rparr>)
                           in s5\<lparr>virtual_cam_send_thread :=
                                    disable_test_pattern (virtual_cam_send_thread s5),
                                 is_reconnecting := False\<rparr>))))"

text \<open>A state the thread is still in when the model's fuel ends, or the state it returned
  with.\<close>

datatype 'a outcome = Returned 'a | StillRunning 'a

fun state_of :: "'a outcome \<Rightarrow> 'a" where
  "state_of (Returned s) = s"
| "state_of (StillRunning s) = s"

fun has_returned :: "'a outcome \<Rightarrow> bool" where
  "has_returned (Returned s) = True"
| "has_returned (StillRunning s) = False"

fun and_then :: "'a outcome \<Rightarrow> ('a \<Rightarrow> 'a) \<Rightarrow> 'a outcome" where
  "and_then (Returned s) f = Returned (f s)"
| "and_then (StillRunning s) f = StillRunning s"

text \<open>\<^verbatim>\<open>attempt_reconnection\<close>; the fuel bounds the turns of its loop.\<close>

fun attempt_reconnection :: "nat \<Rightarrow> video_thread \<Rightarrow> video_thread outcome" where
  "attempt_reconnection 0 s =
     (if running s \<and> should_reconnect s \<and> is_reconnecting s then StillRunning s else Returned s)"
| "attempt_reconnection (Suc fuel) s =
     (if running s \<and> should_reconnect s \<and> is_reconnecting s then
        (let s1 = time_sleep (current_wait s) (emit (ReconnectionAttempt (current_wait s)) s) in
         if \<not> running s1 then Returned s1
         else
           (let s2 = connect_stream s1 in
            if connection_established s2 then Returned s2
            else attempt_reconnection fuel
                   (s2\<lparr>current_wait := min (current_wait s2 * 2) (max_wait s2)\<rparr>)))
      else Returned s)"

definition lose_connection :: "video_thread \<Rightarrow> video_thread" where
  "lose_connection s =
     (emit ConnectionLost s)\<lparr>virtual_cam_send_thread :=
        enable_test_pattern (virtual_cam_send_thread s)\<rparr>"

definition handle_disconnection :: "nat \<Rightarrow> video_thread \<Rightarrow> video_thread outcome" where
  "handle_disconnection fuel s =
     (let s1 = (if connection_established s
                then (lose_connection s)\<lparr>connection_established := False\<rparr> else s)
      in if is_reconnecting s1 then Returned s1
         else
           (let s2 = s1\<lparr>is_reconnecting := True\<rparr> in
            if should_reconnect s2 then attempt_reconnection fuel s2 else Returned s2))"

text \<open>The body of \<^verbatim>\<open>for frame in packet.decode()\<close>, for the frames still to come.\<close>

fun decode_loop :: "frame option list \<Rightarrow> video_thread \<Rightarrow> video_thread" where
  "decode_loop [] s = s"
| "decode_loop (fr # frs) s =
     (if \<not> running s then s
      else case fr of
        None \<Rightarrow> decode_loop frs s
      | Some img \<Rightarrow>
          decode_loop frs
            (emit (VirtualCamFrameReady img)
               ((emit (SendFrame img) (emit (FrameReady img) s))
                  \<lparr>virtual_cam_send_thread := send_frame (virtual_cam_send_thread s) img\<rparr>)))"

text \<open>\<^verbatim>\<open>for packet in self.container.demux()\<close>: the exception that leaves the loop, if any, and
  the state.\<close>

fun demux_loop :: "packet list \<Rightarrow> demux_end \<Rightarrow> video_thread \<Rightarrow> py_error option \<times> video_thread" where
  "demux_loop [] e s = (case e of EndOfStream \<Rightarrow> (None, s) | DemuxError \<Rightarrow> (Some AVError, s))"
| "demux_loop (p # ps) e s0 =
     (let s = (if stop_requested p then s0\<lparr>running := False\<rparr> else s0) in
      if \<not> running s then (None, s)
      else if dts p = None then demux_loop ps e s
      else case decoded p of
        DecodeError \<Rightarrow> (Some AVError, s)
      | Decoded frs \<Rightarrow> demux_loop ps e (decode_loop frs s))"

text \<open>One turn of the loop of \<^verbatim>\<open>VideoThread.run\<close>, the \<^verbatim>\<open>finally\<close> included. The \<^verbatim>\<open>finally\<close>
  is not reached while a reconnection loop inside the turn is still running.\<close>

definition run_iteration :: "nat \<Rightarrow> video_thread \<Rightarrow> video_thread outcome" where
  "run_iteration fuel s0 =
     (let s1 = connect_stream s0 in
      if \<not> connection_established s1 then
        (if \<not> is_reconnecting s1
         then and_then (attempt_reconnection fuel ((lose_connection s1)\<lparr>is_reconnecting := True\<rparr>))
                close_container
         else Returned (close_container s1))
      else
        (let s2 = s1\<lparr>current_wait := initial_wait s1\<rparr> in
         case container s2 of
           None \<Rightarrow> and_then (handle_disconnection fuel s2) close_container
         | Some c \<Rightarrow>
             (case demux_loop (packets c) (ending c) s2 of
                (None, s3) \<Rightarrow> Returned (close_container s3)
              | (Some e, s3) \<Rightarrow> and_then (handle_disconnection fuel s3) close_container)))"

fun run :: "nat \<Rightarrow> video_thread \<Rightarrow> video_thread outcome" where
  "run 0 s = (if running s then StillRunning s else Returned s)"
| "run (Suc fuel) s =
     (if running s then
        (case run_iteration fuel s of
           Returned s' \<Rightarrow> run fuel s'
         | StillRunning s' \<Rightarrow> StillRunning s')
      else Returned s)"



text \<open>The signals in a trace: what an observer of the thread receives.\<close>

fun is_signal :: "event \<Rightarrow> bool" where
  "is_signal ConnectionLost = True"
| "is_signal ConnectionEstablished = True"
| "is_signal (ReconnectionAttempt w) = True"
| "is_signal (FrameReady f) = True"
| "is_signal (VirtualCamFrameReady f) = True"
| "is_signal _ = False"

definition signals :: "video_thread \<Rightarrow> event list" where
  "signals s = filter is_signal (events s)"


fun is_frame_event :: "event \<Rightarrow> bool" where
  "is_frame_event (FrameReady f) = True"
| "is_frame_event (SendFrame f) = True"
| "is_frame_event (VirtualCamFrameReady f) = True"
| "is_frame_event _ = False"






text \<open>A thread that runs and that nothing stops: \<^verbatim>\<open>stop()\<close> is called neither during a
  sleep nor while a packet of any container is awaited.\<close>

definition never_stopped :: "video_thread \<Rightarrow> bool" where
  "never_stopped s =
     (running s \<and> should_reconnect s \<and> (\<forall>i. \<not> stop_in_sleep s i) \<and>
      (\<forall>i c. av_open s i = Opens c \<longrightarrow> (\<forall>p \<in> set (packets c). \<not> stop_requested p)))"

text \<open>The trace of \<open>t\<close> is the trace of \<open>s\<close> followed by events that all satisfy \<open>P\<close>.\<close>

definition appends :: "(event \<Rightarrow> bool) \<Rightarrow> video_thread \<Rightarrow> video_thread \<Rightarrow> bool" where
  "appends P s t = (\<exists>xs. events t = events s @ xs \<and> (\<forall>ev \<in> set xs. P ev))"

section \<open>Backoff schedule and scenarios\<close>

text \<open>The wait after \<open>k\<close> doublings from the initial second under the ceiling of 32 seconds,
  and the events of one failed turn of the reconnection loop at that wait.\<close>

definition backoff :: "nat \<Rightarrow> int" where
  "backoff k = min (2 ^ k) 32"

definition failed_attempt_events :: "nat \<Rightarrow> event list" where
  "failed_attempt_events k = [ReconnectionAttempt (backoff k), Sleep (backoff k), AvOpen]"

text \<open>Two frames of one pixel, a container that advertises 30/1 and whose stream breaks
  after one packet, and two packets: one without \<open>dts\<close>, one with a null decode result
  before a frame.\<close>

definition frame_a :: frame where
  "frame_a = [[(1, 2, 3)]]"


definition container_30fps :: container where
  "container_30fps =
     \<lparr>video_streams = [\<lparr>average_rate = Some (30, 1)\<rparr>],
      packets = [\<lparr>dts = Some 0, decoded = Decoded [Some frame_a], stop_requested = False\<rparr>],
      ending = DemuxError\<rparr>"


text \<open>
  Threads as \<^verbatim>\<open>__init__\<close> leaves them, with the sink thread as its own \<^verbatim>\<open>__init__\<close> leaves it,
  in four environments: a source that never opens; a source that opens at the third call
  of \<^verbatim>\<open>av.open\<close> only; a source that opens at the first call; and a source that never opens,
  with \<^verbatim>\<open>stop()\<close> called during the sixth sleep. Then a connected thread in live mode, and a
  thread inside its reconnection loop when \<^verbatim>\<open>stop()\<close> is called during the next sleep.
\<close>

definition thread_unreachable :: "bool \<Rightarrow> video_thread" where
  "thread_unreachable cam_ok = video_thread_init vcam_init (\<lambda>i. OpenFails) (\<lambda>i. False) cam_ok"

definition thread_flaky :: video_thread where
  "thread_flaky =
     video_thread_init vcam_init (\<lambda>i. if i = 2 then Opens container_30fps else OpenFails)
       (\<lambda>i. False) True"

definition thread_first :: video_thread where
  "thread_first =
     video_thread_init vcam_init (\<lambda>i. if i = 0 then Opens container_30fps else OpenFails)
       (\<lambda>i. False) True"




section \<open>The relay slot\<close>

lemma send_frame_live:
  assumes "\<not> send_test_pattern s" and "length (queue s) \<le> maxsize"
  shows "queue (send_frame s f) = [f] \<and> \<not> send_test_pattern (send_frame s f)"
proof (cases "queue s")
  case Nil
  then show ?thesis using assms by (simp add: send_frame_def put_nowait_def maxsize_def)
next
  case (Cons a q)
  then have "q = []" using assms(2) by (simp add: maxsize_def)
  then show ?thesis using assms Cons
    by (simp add: send_frame_def put_nowait_def get_nowait_def maxsize_def)
qed

lemma submit_all_snoc: "submit_all s (fs @ [f]) = send_frame (submit_all s fs) f"
  by (simp add: submit_all_def)

lemma submit_all_live:
  assumes "\<not> send_test_pattern s" and "length (queue s) \<le> maxsize"
  shows "\<not> send_test_pattern (submit_all s fs) \<and> length (queue (submit_all s fs)) \<le> maxsize"
proof (induction fs rule: rev_induct)
  case Nil
  then show ?case using assms by (simp add: submit_all_def)
next
  case (snoc f fs)
  then show ?case using send_frame_live [of "submit_all s fs" f]
    by (simp add: submit_all_snoc maxsize_def)
qed

text \<open>
  C1. In live mode (\<open>send_test_pattern\<close> false), on a queue within its bound of one frame,
  after any non-empty run of \<^verbatim>\<open>send_frame\<close> calls the queue holds exactly the last frame
  submitted: each call on a full queue discards the frame held and stores the new one. The
  next \<^verbatim>\<open>queue.get\<close> of the delivery loop returns that last frame and leaves the queue empty,
  so no earlier frame of the run is ever taken.
\<close>

theorem send_frame_drop_oldest:
  assumes "\<not> send_test_pattern s" and "length (queue s) \<le> maxsize" and "fs \<noteq> []"
  shows "queue (submit_all s fs) = [last fs] \<and>
         take_frame (submit_all s fs) = (Some (last fs), (submit_all s fs)\<lparr>queue := []\<rparr>)"
proof -
  obtain gs g where fs: "fs = gs @ [g]"
    using assms(3) by (metis rev_exhaust)
  have q: "queue (submit_all s fs) = [last fs]"
    using submit_all_live [OF assms(1,2), of gs] send_frame_live [of "submit_all s gs" g]
    by (simp add: fs submit_all_snoc)
  then show ?thesis by (simp add: take_frame_def get_nowait_def)
qed

theorem send_frame_drop_oldest_witness:
  "\<not> send_test_pattern (vcam_init\<lparr>send_test_pattern := False, queue := [[[(9, 9, 9)]]]\<rparr>) \<and>
   length (queue (vcam_init\<lparr>send_test_pattern := False, queue := [[[(9, 9, 9)]]]\<rparr>)) \<le> maxsize \<and>
   fst (take_frame (submit_all (vcam_init\<lparr>send_test_pattern := False, queue := [[[(9, 9, 9)]]]\<rparr>)
          [[[(1, 2, 3)]], [[(4, 5, 6)]]])) = Some [[(4, 5, 6)]]"
  using send_frame_drop_oldest
    [of "vcam_init\<lparr>send_test_pattern := False, queue := [[[(9, 9, 9)]]]\<rparr>"
        "[[[(1, 2, 3)]], [[(4, 5, 6)]]]"]
  by (simp add: vcam_init_def maxsize_def)

lemma send_frame_placeholder: "send_test_pattern s \<Longrightarrow> send_frame s f = s"
  by (simp add: send_frame_def)

text \<open>
  C2. In placeholder mode (\<open>send_test_pattern\<close> true) \<^verbatim>\<open>send_frame\<close> returns at once: any run
  of calls leaves the whole state of the sink thread, the queue with it, as it was.
\<close>

theorem submit_placeholder_noop:
  assumes "send_test_pattern s"
  shows "submit_all s fs = s"
  using assms
  by (induction fs rule: rev_induct) (simp_all add: submit_all_def send_frame_placeholder)

theorem submit_placeholder_noop_witness:
  "send_test_pattern vcam_init \<and>
   submit_all vcam_init [[[(1, 2, 3)]], [[(4, 5, 6)]]] = vcam_init"
  using submit_placeholder_noop [of vcam_init "[[[(1, 2, 3)]], [[(4, 5, 6)]]]"]
  by (simp add: vcam_init_def)

lemma send_frame_to_virtual_cam_relay:
  "queue (send_frame_to_virtual_cam fr s) = queue s \<and>
   send_test_pattern (send_frame_to_virtual_cam fr s) = send_test_pattern s"
  by (simp add: send_frame_to_virtual_cam_def split: option.splits)

lemma relay_step_placeholder:
  assumes "send_test_pattern s"
  shows "queue (relay_step s x) = queue s \<and> send_test_pattern (relay_step s x)"
proof (cases x)
  case (Submit f)
  then show ?thesis using assms by (simp add: send_frame_placeholder)
next
  case SinkTurn
  then show ?thesis using assms
    by (auto simp: vc_run_step_def send_frame_to_virtual_cam_relay split: option.splits sum.splits)
qed

lemma relay_steps_placeholder:
  assumes "send_test_pattern s"
  shows "queue (relay_steps s ops) = queue s \<and> send_test_pattern (relay_steps s ops)"
proof (induction ops rule: rev_induct)
  case Nil
  then show ?case using assms by (simp add: relay_steps_def)
next
  case (snoc x ops)
  then show ?case using relay_step_placeholder [of "relay_steps s ops" x]
    by (simp add: relay_steps_def)
qed

text \<open>
  C10. \<^verbatim>\<open>enable_test_pattern\<close> sets the flag and nothing else. A frame submitted in live mode
  and not taken stays in the queue when the mode becomes placeholder, stays there through
  every \<^verbatim>\<open>send_frame\<close> call and every turn of the delivery loop made in placeholder mode, and
  is what the first \<^verbatim>\<open>queue.get\<close> returns once \<^verbatim>\<open>disable_test_pattern\<close> has made the mode live
  again.
\<close>

theorem enable_test_pattern_keeps_frame:
  assumes "\<not> send_test_pattern s" and "length (queue s) \<le> maxsize"
  shows "enable_test_pattern (send_frame s f) = (send_frame s f)\<lparr>send_test_pattern := True\<rparr> \<and>
         queue (enable_test_pattern (send_frame s f)) = [f] \<and>
         queue (relay_steps (enable_test_pattern (send_frame s f)) ops) = [f] \<and>
         fst (take_frame (disable_test_pattern
                (relay_steps (enable_test_pattern (send_frame s f)) ops))) = Some f"
proof -
  let ?s1 = "send_frame s f"
  let ?s2 = "enable_test_pattern ?s1"
  let ?s3 = "relay_steps ?s2 ops"
  have s1: "queue ?s1 = [f]" "\<not> send_test_pattern ?s1"
    using send_frame_live [OF assms] by simp_all
  have e: "?s2 = ?s1\<lparr>send_test_pattern := True\<rparr>"
    using s1(2) by (simp add: enable_test_pattern_def)
  then have s2: "queue ?s2 = [f]" "send_test_pattern ?s2" using s1(1) by simp_all
  have s3: "queue ?s3 = [f]" using relay_steps_placeholder [OF s2(2), of ops] s2(1) by simp
  have "queue (disable_test_pattern ?s3) = [f]"
    using s3 by (simp add: disable_test_pattern_def)
  then have "fst (take_frame (disable_test_pattern ?s3)) = Some f"
    by (simp add: take_frame_def get_nowait_def)
  then show ?thesis using e s2(1) s3 by simp
qed

theorem enable_test_pattern_keeps_frame_witness:
  "\<not> send_test_pattern (vcam_init\<lparr>send_test_pattern := False\<rparr>) \<and>
   length (queue (vcam_init\<lparr>send_test_pattern := False\<rparr>)) \<le> maxsize \<and>
   fst (take_frame (disable_test_pattern
          (relay_steps (enable_test_pattern
             (send_frame (vcam_init\<lparr>send_test_pattern := False\<rparr>) [[(1, 2, 3)]]))
             [Submit [[(4, 5, 6)]], SinkTurn, Submit [[(7, 8, 9)]]]))) = Some [[(1, 2, 3)]]"
proof -
  have a: "\<not> send_test_pattern (vcam_init\<lparr>send_test_pattern := False\<rparr>)"
    by simp
  have b: "length (queue (vcam_init\<lparr>send_test_pattern := False\<rparr>)) \<le> maxsize"
    by (simp add: vcam_init_def)
  show ?thesis
    using a b enable_test_pattern_keeps_frame [OF a b, of "[[(1, 2, 3)]]"
        "[Submit [[(4, 5, 6)]], SinkTurn, Submit [[(7, 8, 9)]]]"]
    by blast
qed

section \<open>Opening the device\<close>

lemma set_frame_rate_opens:
  assumes "virtual_cam s = None" and "d \<noteq> 0"
  shows "virtual_cam (snd (set_frame_rate True n d s)) =
     Some \<lparr>cam_width = fst (test_pattern_resolution s), cam_height = snd (test_pattern_resolution s),
           cam_fps = of_int n / of_int d, cam_frames = []\<rparr>"
  using assms by (simp add: set_frame_rate_def Let_def)

text \<open>
  C6. \<^verbatim>\<open>set_frame_rate\<close> opens the device only when none is open. Called while a device is
  open, it leaves the device, with its width, height and fps and the frames it was sent,
  as it is: all it changes in the state are the two fields \<open>frame_rate_n\<close> and
  \<open>frame_rate_d\<close>, which record the arguments of the call and which the device does not read.
  So the device stays the one first opened through any further calls.
\<close>

theorem set_frame_rate_opens_once:
  assumes "virtual_cam s = Some cam"
  shows "snd (set_frame_rate device_ok n d s) = s\<lparr>frame_rate_n := Some n, frame_rate_d := Some d\<rparr> \<and>
         virtual_cam (snd (set_frame_rate device_ok n d s)) = Some cam \<and>
         virtual_cam (foldl (\<lambda>v (ok, n', d'). snd (set_frame_rate ok n' d' v)) s calls) = Some cam"
proof -
  have one: "virtual_cam (snd (set_frame_rate ok n' d' v)) = Some cam"
    if "virtual_cam v = Some cam" for ok n' d' v
    using that by (simp add: set_frame_rate_def Let_def)
  have "virtual_cam (foldl (\<lambda>v (ok, n', d'). snd (set_frame_rate ok n' d' v)) s calls) = Some cam"
  proof (induction calls rule: rev_induct)
    case Nil
    then show ?case using assms by simp
  next
    case (snoc x calls)
    then show ?case using one by (cases x) simp
  qed
  then show ?thesis using assms by (simp add: set_frame_rate_def Let_def)
qed

theorem set_frame_rate_opens_once_witness:
  "virtual_cam (snd (set_frame_rate True 30 1 vcam_init)) =
     Some \<lparr>cam_width = 1920, cam_height = 1080, cam_fps = 30, cam_frames = []\<rparr> \<and>
   virtual_cam (snd (set_frame_rate True 60 1 (snd (set_frame_rate True 30 1 vcam_init)))) =
     Some \<lparr>cam_width = 1920, cam_height = 1080, cam_fps = 30, cam_frames = []\<rparr>"
  using set_frame_rate_opens_once
    [of "snd (set_frame_rate True 30 1 vcam_init)"
        "\<lparr>cam_width = 1920, cam_height = 1080, cam_fps = 30, cam_frames = []\<rparr>" True 60 1]
    set_frame_rate_opens [of vcam_init 1 30]
  by (simp add: vcam_init_def)

section \<open>The test pattern\<close>















lemma create_test_pattern_negative: "create_test_pattern (- 1) 8 = Inl ValueError"
  by (simp add: create_test_pattern_def np_zeros_def)

section \<open>The read loop\<close>




subsection \<open>A thread that nothing stops keeps running\<close>

lemma never_stopped_fields:
  assumes "never_stopped s" and "running t = running s" and "should_reconnect t = should_reconnect s"
    and "stop_in_sleep t = stop_in_sleep s" and "av_open t = av_open s"
  shows "never_stopped t"
  using assms by (simp add: never_stopped_def)

lemma close_container_fields:
  "running (close_container s) = running s \<and>
   should_reconnect (close_container s) = should_reconnect s \<and>
   stop_in_sleep (close_container s) = stop_in_sleep s \<and>
   av_open (close_container s) = av_open s \<and>
   opened (close_container s) = opened s \<and>
   container (close_container s) = None"
  by (simp add: close_container_def emit_def split: option.splits)










lemma has_returned_and_then: "has_returned (and_then r f) = has_returned r"
  by (cases r) simp_all




subsection \<open>What each part adds to the trace\<close>

lemma appends_refl: "appends P s s"
  by (simp add: appends_def)

lemma appends_trans: "appends P s t \<Longrightarrow> appends P t u \<Longrightarrow> appends P s u"
  by (auto simp: appends_def)

lemma appends_same: "events t = events s \<Longrightarrow> appends P s t"
  by (simp add: appends_def)

lemma appends_emit: "P e \<Longrightarrow> appends P s (emit e s)"
  by (simp add: appends_def emit_def)

lemma appends_decode_loop: "appends is_frame_event s (decode_loop frs s)"
proof (induction frs arbitrary: s)
  case Nil
  then show ?case by (simp add: appends_refl)
next
  case (Cons fr frs)
  show ?case
  proof (cases fr)
    case None
    then show ?thesis using Cons [of s] by (simp add: appends_refl)
  next
    case (Some img)
    let ?t = "emit (VirtualCamFrameReady img)
               ((emit (SendFrame img) (emit (FrameReady img) s))
                  \<lparr>virtual_cam_send_thread := send_frame (virtual_cam_send_thread s) img\<rparr>)"
    have "appends is_frame_event s ?t" by (simp add: appends_def emit_def)
    then have "appends is_frame_event s (decode_loop frs ?t)"
      using Cons [of ?t] by (rule appends_trans)
    then show ?thesis using Some by (simp add: appends_refl)
  qed
qed

lemma appends_demux_loop: "appends is_frame_event s (snd (demux_loop ps e s))"
proof (induction ps arbitrary: s)
  case Nil
  then show ?case by (simp add: appends_refl split: demux_end.splits)
next
  case (Cons p ps)
  show ?case
  proof (cases "stop_requested p")
    case True
    then show ?thesis by (simp add: appends_def)
  next
    case False
    have c: "appends is_frame_event s (snd (demux_loop ps e (decode_loop frs s)))" for frs
      using appends_decode_loop [of s frs] Cons [of "decode_loop frs s"] by (rule appends_trans)
    show ?thesis using False Cons [of s] c
      by (simp add: appends_refl split: decode_result.splits)
  qed
qed

lemma appends_close_container: "appends (\<lambda>ev. \<not> is_frame_event ev) s (close_container s)"
  by (simp add: close_container_def appends_def emit_def split: option.splits)

lemma appends_connect_stream: "appends (\<lambda>ev. \<not> is_frame_event ev) s (connect_stream s)"
proof -
  have "appends (\<lambda>ev. \<not> is_frame_event ev) (close_container s) (connect_stream s)"
    by (simp add: connect_stream_def connect_failed_def emit_def Let_def appends_def
        split: open_result.splits list.splits prod.splits option.splits)
  with appends_close_container show ?thesis by (rule appends_trans)
qed

lemma appends_attempt:
  "appends (\<lambda>ev. \<not> is_frame_event ev) s (state_of (attempt_reconnection n s))"
proof (induction n arbitrary: s)
  case 0
  then show ?case by (simp add: appends_refl)
next
  case (Suc n)
  let ?s1 = "time_sleep (current_wait s) (emit (ReconnectionAttempt (current_wait s)) s)"
  let ?s2 = "connect_stream ?s1"
  let ?s3 = "?s2\<lparr>current_wait := min (current_wait ?s2 * 2) (max_wait ?s2)\<rparr>"
  have a: "appends (\<lambda>ev. \<not> is_frame_event ev) s ?s1"
    by (simp add: appends_def time_sleep_def emit_def)
  have b: "appends (\<lambda>ev. \<not> is_frame_event ev) s ?s2"
    using a appends_connect_stream by (rule appends_trans)
  then have "appends (\<lambda>ev. \<not> is_frame_event ev) s ?s3" by (simp add: appends_def)
  then have c: "appends (\<lambda>ev. \<not> is_frame_event ev) s (state_of (attempt_reconnection n ?s3))"
    using Suc by (rule appends_trans)
  show ?case using a b c by (simp add: Let_def appends_refl)
qed

lemma appends_handle:
  "appends (\<lambda>ev. \<not> is_frame_event ev) s (state_of (handle_disconnection n s))"
proof -
  let ?s1 = "if connection_established s
             then (lose_connection s)\<lparr>connection_established := False\<rparr> else s"
  have a: "appends (\<lambda>ev. \<not> is_frame_event ev) s ?s1"
    by (simp add: appends_def lose_connection_def emit_def)
  then have b: "appends (\<lambda>ev. \<not> is_frame_event ev) s (?s1\<lparr>is_reconnecting := True\<rparr>)"
    by (simp add: appends_def)
  have "appends (\<lambda>ev. \<not> is_frame_event ev) s
      (state_of (attempt_reconnection n (?s1\<lparr>is_reconnecting := True\<rparr>)))"
    using b appends_attempt by (rule appends_trans)
  then show ?thesis using a b by (simp add: handle_disconnection_def Let_def)
qed

lemma appends_and_then_close:
  assumes "appends (\<lambda>ev. \<not> is_frame_event ev) s (state_of r)"
  shows "appends (\<lambda>ev. \<not> is_frame_event ev) s (state_of (and_then r close_container))"
proof (cases r)
  case (Returned t)
  then show ?thesis using assms appends_close_container [of t]
    by (auto intro: appends_trans)
next
  case (StillRunning t)
  then show ?thesis using assms by simp
qed

lemma connect_stream_success:
  assumes "connection_established (connect_stream s)"
  shows "\<exists>c st rest. av_open s (opened s) = Opens c \<and> video_streams c = st # rest \<and>
     container (connect_stream s) = Some c \<and>
     events (connect_stream s) = events (close_container s) @
       [AvOpen, SetFrameRate (fst (resolve_rate st)) (snd (resolve_rate st)), ConnectionEstablished] \<and>
     frame_rate_n (virtual_cam_send_thread (connect_stream s)) = Some (fst (resolve_rate st)) \<and>
     frame_rate_d (virtual_cam_send_thread (connect_stream s)) = Some (snd (resolve_rate st))"
proof (cases "av_open s (opened s)")
  case OpenFails
  then show ?thesis using assms
    by (simp add: connect_stream_def connect_failed_def Let_def close_container_fields)
next
  case (Opens c)
  show ?thesis
  proof (cases "video_streams c")
    case Nil
    then show ?thesis using assms Opens
      by (simp add: connect_stream_def connect_failed_def Let_def close_container_fields)
  next
    case (Cons st rest)
    obtain n d where r: "resolve_rate st = (n, d)" by (cases "resolve_rate st")
    let ?s3 = "(emit AvOpen (close_container s))\<lparr>opened := Suc (opened s),
        container := Some c\<rparr>"
    obtain err vc where sf:
      "set_frame_rate (camera_opens ?s3) n d (virtual_cam_send_thread ?s3) = (err, vc)"
      by (cases "set_frame_rate (camera_opens ?s3) n d (virtual_cam_send_thread ?s3)")
    have cs: "connect_stream s =
      (case err of
         Some e \<Rightarrow> connect_failed ((emit (SetFrameRate n d) ?s3)\<lparr>virtual_cam_send_thread := vc\<rparr>)
       | None \<Rightarrow>
           (let s5 = emit ConnectionEstablished
                 ((emit (SetFrameRate n d) ?s3)\<lparr>virtual_cam_send_thread := vc,
                    connection_established := True\<rparr>)
            in s5\<lparr>virtual_cam_send_thread := disable_test_pattern (virtual_cam_send_thread s5),
                  is_reconnecting := False\<rparr>))"
      using Opens Cons r sf
      by (simp add: connect_stream_def Let_def close_container_fields)
    have e: "err = None"
      using assms cs by (cases err) (simp_all add: connect_failed_def)
    have fr: "frame_rate_n vc = Some n \<and> frame_rate_d vc = Some d"
      using sf by (auto simp: set_frame_rate_def Let_def split: if_splits option.splits)
    have "frame_rate_n (disable_test_pattern vc) = Some n \<and>
          frame_rate_d (disable_test_pattern vc) = Some d"
      using fr by (simp add: disable_test_pattern_def)
    then show ?thesis using Opens Cons r cs e
      by (simp add: emit_def Let_def)
  qed
qed





section \<open>Connecting\<close>

lemma run_iteration_connected:
  assumes "connection_established (connect_stream s)"
  shows "\<exists>xs ys. events (state_of (run_iteration fuel s)) = events (connect_stream s) @ xs @ ys \<and>
     (\<forall>ev \<in> set xs. is_frame_event ev) \<and> (\<forall>ev \<in> set ys. \<not> is_frame_event ev)"
proof -
  let ?s1 = "connect_stream s"
  let ?s2 = "?s1\<lparr>current_wait := initial_wait ?s1\<rparr>"
  obtain c where c: "container ?s1 = Some c"
    using connect_stream_success [OF assms] by blast
  obtain err t where d: "demux_loop (packets c) (ending c) ?s2 = (err, t)"
    by (cases "demux_loop (packets c) (ending c) ?s2")
  have "appends is_frame_event ?s2 (snd (demux_loop (packets c) (ending c) ?s2))"
    by (rule appends_demux_loop)
  then obtain xs where xs: "events t = events ?s1 @ xs" "\<forall>ev \<in> set xs. is_frame_event ev"
    using d by (auto simp: appends_def)
  have "appends (\<lambda>ev. \<not> is_frame_event ev) t (state_of (run_iteration fuel s))"
  proof (cases err)
    case None
    then have "run_iteration fuel s = Returned (close_container t)"
      using assms c d by (simp add: run_iteration_def Let_def)
    then show ?thesis using appends_close_container [of t] by simp
  next
    case (Some e)
    then have "run_iteration fuel s = and_then (handle_disconnection fuel t) close_container"
      using assms c d by (simp add: run_iteration_def Let_def)
    then show ?thesis using appends_and_then_close [OF appends_handle, of t fuel] by simp
  qed
  then obtain ys where "events (state_of (run_iteration fuel s)) = events t @ ys"
    and "\<forall>ev \<in> set ys. \<not> is_frame_event ev"
    unfolding appends_def by blast
  then show ?thesis using xs by auto
qed

text \<open>
  C8. When \<^verbatim>\<open>connect_stream\<close> ends with the connection established, \<^verbatim>\<open>av.open\<close> returned a
  container with a video stream; the rate is the stream's average rate when it has one (not
  zero) and 25/1 when it has none; \<^verbatim>\<open>connect_stream\<close> calls \<^verbatim>\<open>set_frame_rate\<close> of the sink
  thread with that rate exactly once, between \<^verbatim>\<open>av.open\<close> and the signal that the connection
  is established, and the sink thread records it. In the turn of \<^verbatim>\<open>run\<close> that made the
  connection, every frame event comes after these events: the trace of the turn is the trace
  of \<^verbatim>\<open>connect_stream\<close>, then frame events only, then events none of which is a frame event.
\<close>

theorem connect_stream_reports_rate:
  assumes "connection_established (connect_stream s)"
  shows "\<exists>c st rest xs ys.
     av_open s (opened s) = Opens c \<and> video_streams c = st # rest \<and>
     (average_rate st = None \<longrightarrow> resolve_rate st = (25, 1)) \<and>
     (\<forall>n d. average_rate st = Some (n, d) \<and> n \<noteq> 0 \<longrightarrow> resolve_rate st = (n, d)) \<and>
     frame_rate_n (virtual_cam_send_thread (connect_stream s)) = Some (fst (resolve_rate st)) \<and>
     frame_rate_d (virtual_cam_send_thread (connect_stream s)) = Some (snd (resolve_rate st)) \<and>
     events (connect_stream s) = events (close_container s) @
       [AvOpen, SetFrameRate (fst (resolve_rate st)) (snd (resolve_rate st)), ConnectionEstablished] \<and>
     events (state_of (run_iteration fuel s)) = events (connect_stream s) @ xs @ ys \<and>
     (\<forall>ev \<in> set xs. is_frame_event ev) \<and> (\<forall>ev \<in> set ys. \<not> is_frame_event ev)"
proof -
  obtain c st rest where a: "av_open s (opened s) = Opens c" "video_streams c = st # rest"
    "events (connect_stream s) = events (close_container s) @
       [AvOpen, SetFrameRate (fst (resolve_rate st)) (snd (resolve_rate st)), ConnectionEstablished]"
    "frame_rate_n (virtual_cam_send_thread (connect_stream s)) = Some (fst (resolve_rate st))"
    "frame_rate_d (virtual_cam_send_thread (connect_stream s)) = Some (snd (resolve_rate st))"
    using connect_stream_success [OF assms] by blast
  obtain xs ys where b: "events (state_of (run_iteration fuel s)) = events (connect_stream s) @ xs @ ys"
    "\<forall>ev \<in> set xs. is_frame_event ev" "\<forall>ev \<in> set ys. \<not> is_frame_event ev"
    using run_iteration_connected [OF assms] by blast
  have r: "(average_rate st = None \<longrightarrow> resolve_rate st = (25, 1)) \<and>
     (\<forall>n d. average_rate st = Some (n, d) \<and> n \<noteq> 0 \<longrightarrow> resolve_rate st = (n, d))"
    by (simp add: resolve_rate_def)
  show ?thesis
    apply (rule exI [of _ c], rule exI [of _ st], rule exI [of _ rest])
    apply (rule exI [of _ xs], rule exI [of _ ys])
    apply (intro conjI)
    using a b r by simp_all
qed

theorem connect_stream_reports_rate_witness:
  "connection_established (connect_stream thread_first) \<and>
   events (connect_stream thread_first) = [AvOpen, SetFrameRate 30 1, ConnectionEstablished] \<and>
   frame_rate_n (virtual_cam_send_thread (connect_stream thread_first)) = Some 30 \<and>
   frame_rate_d (virtual_cam_send_thread (connect_stream thread_first)) = Some 1"
proof -
  have a: "connection_established (connect_stream thread_first)"
    by (simp add: thread_first_def video_thread_init_def connect_stream_def close_container_def
        container_30fps_def resolve_rate_def set_frame_rate_def vcam_init_def emit_def Let_def)
  obtain c st rest where b: "av_open thread_first (opened thread_first) = Opens c" "video_streams c = st # rest"
    "frame_rate_n (virtual_cam_send_thread (connect_stream thread_first)) = Some (fst (resolve_rate st))"
    "frame_rate_d (virtual_cam_send_thread (connect_stream thread_first)) = Some (snd (resolve_rate st))"
    "events (connect_stream thread_first) = events (close_container thread_first) @
       [AvOpen, SetFrameRate (fst (resolve_rate st)) (snd (resolve_rate st)), ConnectionEstablished]"
    using connect_stream_reports_rate [OF a, of 0] by blast
  have "c = container_30fps" using b(1) by (simp add: thread_first_def video_thread_init_def)
  then have "st = \<lparr>average_rate = Some (30, 1)\<rparr>" using b(2) by (simp add: container_30fps_def)
  then have "resolve_rate st = (30, 1)" by (simp add: resolve_rate_def)
  moreover have "events (close_container thread_first) = []"
    by (simp add: thread_first_def video_thread_init_def close_container_def)
  ultimately show ?thesis using a b by simp
qed


section \<open>Reconnection and backoff\<close>

lemma backoff_step: "min (backoff k * 2) 32 = backoff (Suc k)"
  by (simp add: backoff_def min_def)

lemma connect_stream_fails:
  assumes "av_open s (opened s) = OpenFails" and "container s = None"
  shows "connect_stream s = s\<lparr>events := events s @ [AvOpen], opened := Suc (opened s),
           connection_established := False, container := None\<rparr>"
  using assms by (simp add: connect_stream_def close_container_def connect_failed_def emit_def Let_def)

lemma attempt_reconnection_retry:
  assumes "running s" and "should_reconnect s" and "is_reconnecting s" and "container s = None"
    and "av_open s (opened s) = OpenFails" and "\<not> stop_in_sleep s (slept s)"
  shows "attempt_reconnection (Suc n) s =
     attempt_reconnection n
       (s\<lparr>events := events s @ [ReconnectionAttempt (current_wait s), Sleep (current_wait s), AvOpen],
          slept := Suc (slept s), opened := Suc (opened s), connection_established := False,
          container := None, current_wait := min (current_wait s * 2) (max_wait s)\<rparr>)"
proof -
  define s1 where "s1 = time_sleep (current_wait s) (emit (ReconnectionAttempt (current_wait s)) s)"
  define s2 where "s2 = connect_stream s1"
  define s3 where "s3 = s2\<lparr>current_wait := min (current_wait s2 * 2) (max_wait s2)\<rparr>"
  have s1: "s1 = s\<lparr>events := events s @ [ReconnectionAttempt (current_wait s), Sleep (current_wait s)],
       slept := Suc (slept s)\<rparr>"
    using assms(1,6) by (simp add: s1_def time_sleep_def emit_def)
  have "s2 = s1\<lparr>events := events s1 @ [AvOpen], opened := Suc (opened s1),
           connection_established := False, container := None\<rparr>"
    unfolding s2_def using assms(4,5) by (intro connect_stream_fails) (simp_all add: s1)
  then have s2: "s2 = s\<lparr>events := events s @
         [ReconnectionAttempt (current_wait s), Sleep (current_wait s), AvOpen],
       slept := Suc (slept s), opened := Suc (opened s), connection_established := False,
       container := None\<rparr>"
    by (simp add: s1)
  have s3: "s3 = s\<lparr>events := events s @
         [ReconnectionAttempt (current_wait s), Sleep (current_wait s), AvOpen],
       slept := Suc (slept s), opened := Suc (opened s), connection_established := False,
       container := None, current_wait := min (current_wait s * 2) (max_wait s)\<rparr>"
    by (simp add: s3_def s2)
  have r1: "running s1" using assms(1) by (simp add: s1)
  have e2: "\<not> connection_established s2" by (simp add: s2)
  have "attempt_reconnection (Suc n) s = attempt_reconnection n s3"
    using assms(1,2,3) r1 e2
    by (simp add: Let_def s1_def [symmetric] s2_def [symmetric] s3_def [symmetric])
  then show ?thesis by (simp only: s3)
qed


lemma attempt_reconnection_connects:
  assumes "running s" and "should_reconnect s" and "is_reconnecting s"
    and "\<not> stop_in_sleep s (slept s)"
    and "connection_established (connect_stream
           (s\<lparr>events := events s @ [ReconnectionAttempt (current_wait s), Sleep (current_wait s)],
              slept := Suc (slept s)\<rparr>))"
  shows "attempt_reconnection (Suc n) s =
     Returned (connect_stream
       (s\<lparr>events := events s @ [ReconnectionAttempt (current_wait s), Sleep (current_wait s)],
          slept := Suc (slept s)\<rparr>))"
proof -
  define s1 where "s1 = time_sleep (current_wait s) (emit (ReconnectionAttempt (current_wait s)) s)"
  have s1: "s1 = s\<lparr>events := events s @ [ReconnectionAttempt (current_wait s), Sleep (current_wait s)],
       slept := Suc (slept s)\<rparr>"
    using assms(1,4) by (simp add: s1_def time_sleep_def emit_def)
  have "running s1" using assms(1) by (simp add: s1)
  moreover have "connection_established (connect_stream s1)" using assms(5) by (simp only: s1)
  ultimately have "attempt_reconnection (Suc n) s = Returned (connect_stream s1)"
    using assms(1,2,3) by (simp add: Let_def s1_def [symmetric])
  then show ?thesis by (simp only: s1)
qed

lemma attempt_reconnection_fails:
  assumes "running s" and "should_reconnect s" and "is_reconnecting s" and "container s = None"
    and "\<forall>i < n. av_open s (opened s + i) = OpenFails"
    and "\<forall>i < n. \<not> stop_in_sleep s (slept s + i)"
    and "max_wait s = 32" and "current_wait s = backoff j" and "\<not> connection_established s"
  shows "attempt_reconnection (n + m) s =
     attempt_reconnection m
       (s\<lparr>events := events s @ concat (map failed_attempt_events [j..<j + n]),
          opened := opened s + n, slept := slept s + n, current_wait := backoff (j + n)\<rparr>)"
  using assms
proof (induction n arbitrary: s j)
  case 0
  have "s\<lparr>current_wait := backoff j\<rparr> = s"
    using "0.prems"(8) by (cases s) simp
  then show ?case by simp
next
  case (Suc n)
  define s3 where "s3 = s\<lparr>events := events s @
         [ReconnectionAttempt (current_wait s), Sleep (current_wait s), AvOpen],
       slept := Suc (slept s), opened := Suc (opened s), connection_established := False,
       container := None, current_wait := min (current_wait s * 2) (max_wait s)\<rparr>"
  have a0: "av_open s (opened s) = OpenFails" and b0: "\<not> stop_in_sleep s (slept s)"
    using Suc.prems(5,6) by force+
  have step: "attempt_reconnection (Suc (n + m)) s = attempt_reconnection (n + m) s3"
    unfolding s3_def using Suc.prems(1,2,3,4) a0 b0 by (rule attempt_reconnection_retry)
  have c: "s\<lparr>connection_established := False, container := None\<rparr> = s"
    using Suc.prems(4,9) by (cases s) simp
  have s3: "s3 = s\<lparr>events := events s @ failed_attempt_events j,
       slept := Suc (slept s), opened := Suc (opened s), current_wait := backoff (Suc j)\<rparr>"
  proof -
    have "s3 = (s\<lparr>connection_established := False, container := None\<rparr>)
       \<lparr>events := events s @ failed_attempt_events j,
       slept := Suc (slept s), opened := Suc (opened s), current_wait := backoff (Suc j)\<rparr>"
      using Suc.prems(7,8) by (simp add: s3_def failed_attempt_events_def backoff_step)
    then show ?thesis by (simp only: c)
  qed
  have av: "\<forall>i < n. av_open s3 (opened s3 + i) = OpenFails"
    using Suc.prems(5) by (auto simp: s3)
  have st: "\<forall>i < n. \<not> stop_in_sleep s3 (slept s3 + i)"
    using Suc.prems(6) by (auto simp: s3)
  have ih: "attempt_reconnection (n + m) s3 =
     attempt_reconnection m
       (s3\<lparr>events := events s3 @ concat (map failed_attempt_events [Suc j..<Suc j + n]),
          opened := opened s3 + n, slept := slept s3 + n, current_wait := backoff (Suc j + n)\<rparr>)"
    using _ _ _ _ av st
    by (rule Suc.IH) (use Suc.prems in \<open>simp_all add: s3\<close>)
  have u: "[j..<j + Suc n] = j # [Suc j..<Suc j + n]"
    by (simp add: upt_conv_Cons)
  have "s3\<lparr>events := events s3 @ concat (map failed_attempt_events [Suc j..<Suc j + n]),
          opened := opened s3 + n, slept := slept s3 + n, current_wait := backoff (Suc j + n)\<rparr> =
        s\<lparr>events := events s @ concat (map failed_attempt_events [j..<j + Suc n]),
          opened := opened s + Suc n, slept := slept s + Suc n,
          current_wait := backoff (j + Suc n)\<rparr>"
    by (simp only: u) (simp add: s3)
  then show ?case using step ih by simp
qed




lemma run_step:
  "running s \<Longrightarrow> run_iteration n s = Returned t \<Longrightarrow> run (Suc n) s = run n t"
  by simp

lemma run_unreachable:
  "run (Suc n) (thread_unreachable cam_ok) =
     StillRunning ((thread_unreachable cam_ok)\<lparr>events :=
          [AvOpen, ConnectionLost] @ concat (map failed_attempt_events [0..<n]),
        opened := Suc n, slept := n, is_reconnecting := True, current_wait := backoff n\<rparr>)"
proof -
  define s0 where "s0 = thread_unreachable cam_ok"
  have f: "running s0" "should_reconnect s0" "\<not> is_reconnecting s0" "container s0 = None"
    "\<forall>i. av_open s0 i = OpenFails" "\<forall>i. \<not> stop_in_sleep s0 i" "max_wait s0 = 32"
    "current_wait s0 = 1" "\<not> connection_established s0" "events s0 = []" "opened s0 = 0"
    "slept s0 = 0" "virtual_cam_send_thread s0 = vcam_init"
    by (simp_all add: s0_def thread_unreachable_def video_thread_init_def)
  have c: "connect_stream s0 = s0\<lparr>events := [AvOpen], opened := Suc 0,
      connection_established := False, container := None\<rparr>"
    using connect_stream_fails [of s0] f by simp
  define s2 where "s2 = s0\<lparr>events := [AvOpen, ConnectionLost], opened := Suc 0,
      connection_established := False, container := None, is_reconnecting := True\<rparr>"
  have v: "enable_test_pattern vcam_init = vcam_init"
    by (simp add: enable_test_pattern_def vcam_init_def)
  have l: "(lose_connection (connect_stream s0))\<lparr>is_reconnecting := True\<rparr> = s2"
    using f(13) by (simp add: c lose_connection_def emit_def v s2_def)
  define s3 where "s3 = s2\<lparr>events := events s2 @ concat (map failed_attempt_events [0..<0 + n]),
        opened := opened s2 + n, slept := slept s2 + n, current_wait := backoff (0 + n)\<rparr>"
  have "attempt_reconnection (n + 0) s2 = attempt_reconnection 0 s3"
    unfolding s3_def
    by (rule attempt_reconnection_fails) (use f in \<open>simp_all add: s2_def backoff_def\<close>)
  moreover have "running s3 \<and> should_reconnect s3 \<and> is_reconnecting s3"
    using f by (simp add: s3_def s2_def)
  ultimately have a: "attempt_reconnection n s2 = StillRunning s3" by simp
  have "run_iteration n s0 = and_then (attempt_reconnection n s2) close_container"
    using f(3) l by (simp add: run_iteration_def Let_def c)
  then have r: "run_iteration n s0 = StillRunning s3"
    using a by simp
  have "s3 = s0\<lparr>events := [AvOpen, ConnectionLost] @ concat (map failed_attempt_events [0..<n]),
        opened := Suc n, slept := n, is_reconnecting := True, current_wait := backoff n\<rparr>"
    by (simp add: s3_def s2_def s0_def thread_unreachable_def video_thread_init_def)
  then have "run (Suc n) s0 =
     StillRunning (s0\<lparr>events := [AvOpen, ConnectionLost] @ concat (map failed_attempt_events [0..<n]),
        opened := Suc n, slept := n, is_reconnecting := True, current_wait := backoff n\<rparr>)"
    using f(1) r by (simp del: upt_Suc)
  then show ?thesis by (simp only: s0_def)
qed

subsection \<open>A source that never opens\<close>




subsection \<open>A source that comes back and fails again\<close>

lemma connect_stream_succeeds:
  assumes "av_open s (opened s) = Opens c" and "container s = None"
    and "video_streams c = st # rest" and "resolve_rate st = (n, d)" and "d \<noteq> 0"
  shows "connect_stream s =
     s\<lparr>events := events s @ [AvOpen, SetFrameRate n d, ConnectionEstablished],
       opened := Suc (opened s), container := Some c,
       virtual_cam_send_thread :=
         disable_test_pattern (snd (set_frame_rate (camera_opens s) n d (virtual_cam_send_thread s))),
       connection_established := True, is_reconnecting := False\<rparr>"
proof -
  have "fst (set_frame_rate (camera_opens s) n d (virtual_cam_send_thread s)) = None"
    using assms(5) by (simp add: set_frame_rate_def Let_def split: option.splits)
  then obtain vc where "set_frame_rate (camera_opens s) n d (virtual_cam_send_thread s) = (None, vc)"
    by (cases "set_frame_rate (camera_opens s) n d (virtual_cam_send_thread s)") simp
  then show ?thesis using assms(1,2,3,4)
    by (simp add: connect_stream_def close_container_def emit_def Let_def)
qed

lemma run_step_running:
  "running s \<Longrightarrow> run_iteration n s = StillRunning t \<Longrightarrow> run (Suc n) s = StillRunning t"
  by simp

lemma backoff_initial: "current_wait (video_thread_init vc opens stops cam_ok) = 1"
  by (simp add: video_thread_init_def)

lemma backoff_after_failures:
  "current_wait (state_of (run (Suc n) (thread_unreachable cam_ok))) = min (2 ^ n) 32"
  by (simp only: run_unreachable) (simp add: backoff_def)

text \<open>
  C4 on a source that fails twice, opens at the third call of \<^verbatim>\<open>av.open\<close> and fails again:
  the reconnection loop connects at a wait of 2 seconds, \<^verbatim>\<open>run\<close> closes that connection in
  its \<^verbatim>\<open>finally\<close> and connects anew, that call fails, and the next reconnection attempt is
  announced with a wait of 2 seconds, not 1: \<open>current_wait\<close> is reset only where \<^verbatim>\<open>run\<close>
  itself has connected.
\<close>

theorem backoff_kept_after_reconnection:
  "signals (state_of (run 4 thread_flaky)) =
     [ConnectionLost, ReconnectionAttempt 1, ReconnectionAttempt 2, ConnectionEstablished,
      ConnectionLost, ReconnectionAttempt 2, ReconnectionAttempt 4] \<and>
   current_wait (state_of (run 4 thread_flaky)) = 8"
proof -
  define s0 where "s0 = thread_flaky"
  have f: "running s0" "should_reconnect s0" "\<not> is_reconnecting s0" "container s0 = None"
    "\<forall>i. av_open s0 i = (if i = 2 then Opens container_30fps else OpenFails)"
    "\<forall>i. \<not> stop_in_sleep s0 i" "max_wait s0 = 32" "initial_wait s0 = 1"
    "current_wait s0 = 1" "\<not> connection_established s0" "events s0 = []" "opened s0 = 0"
    "slept s0 = 0" "virtual_cam_send_thread s0 = vcam_init" "camera_opens s0"
    by (simp_all add: s0_def thread_flaky_def video_thread_init_def)
  have v: "enable_test_pattern vcam_init = vcam_init"
    by (simp add: enable_test_pattern_def vcam_init_def)
  have c: "connect_stream s0 = s0\<lparr>events := [AvOpen], opened := Suc 0,
      connection_established := False, container := None\<rparr>"
    using connect_stream_fails [of s0] f by simp
  define s2 where "s2 = s0\<lparr>events := [AvOpen, ConnectionLost], opened := Suc 0,
      connection_established := False, container := None, is_reconnecting := True\<rparr>"
  have l: "(lose_connection (connect_stream s0))\<lparr>is_reconnecting := True\<rparr> = s2"
    using f(14) by (simp add: c lose_connection_def emit_def v s2_def)
  define s3 where "s3 = s2\<lparr>events := events s2 @ concat (map failed_attempt_events [0..<0 + 1]),
        opened := opened s2 + 1, slept := slept s2 + 1, current_wait := backoff (0 + 1)\<rparr>"
  have a1: "attempt_reconnection (1 + 2) s2 = attempt_reconnection 2 s3"
    unfolding s3_def
    by (rule attempt_reconnection_fails) (use f in \<open>simp_all add: s2_def backoff_def\<close>)
  define s4 where "s4 = s3\<lparr>events := events s3 @
        [ReconnectionAttempt (current_wait s3), Sleep (current_wait s3)], slept := Suc (slept s3)\<rparr>"
  define vc where "vc = disable_test_pattern (snd (set_frame_rate True 30 1 vcam_init))"
  have c4: "connect_stream s4 =
     s4\<lparr>events := events s4 @ [AvOpen, SetFrameRate 30 1, ConnectionEstablished],
       opened := Suc (opened s4), container := Some container_30fps,
       virtual_cam_send_thread :=
         disable_test_pattern (snd (set_frame_rate (camera_opens s4) 30 1 (virtual_cam_send_thread s4))),
       connection_established := True, is_reconnecting := False\<rparr>"
    by (rule connect_stream_succeeds [where st = "\<lparr>average_rate = Some (30, 1)\<rparr>" and rest = "[]"])
       (use f in \<open>simp_all add: s4_def s3_def s2_def container_30fps_def resolve_rate_def\<close>)
  define s5 where "s5 = connect_stream s4"
  have s5: "s5 = s4\<lparr>events := events s4 @ [AvOpen, SetFrameRate 30 1, ConnectionEstablished],
       opened := Suc (opened s4), container := Some container_30fps,
       virtual_cam_send_thread :=
         disable_test_pattern (snd (set_frame_rate (camera_opens s4) 30 1 (virtual_cam_send_thread s4))),
       connection_established := True, is_reconnecting := False\<rparr>"
    using c4 by (simp only: s5_def)
  have a2: "attempt_reconnection (Suc 1) s3 = Returned s5"
    unfolding s5_def s4_def
    by (rule attempt_reconnection_connects)
       (use f c4 in \<open>simp_all add: s4_def [symmetric]\<close>, simp_all add: s3_def s2_def)
  have a: "attempt_reconnection 3 s2 = Returned s5"
    using a1 a2 by (simp add: numeral_3_eq_3 numeral_2_eq_2)
  have "run_iteration 3 s0 = and_then (attempt_reconnection 3 s2) close_container"
    using f(3) l by (simp add: run_iteration_def Let_def c)
  then have r0: "run_iteration 3 s0 = Returned (close_container s5)" using a by simp
  define s6 where "s6 = close_container s5"
  have s6: "s6 = s5\<lparr>events := events s5 @ [ContainerClose], container := None\<rparr>"
    by (simp add: s6_def s5 close_container_def emit_def)
  have g: "running s6" "should_reconnect s6" "\<not> is_reconnecting s6" "container s6 = None"
    "av_open s6 = av_open s0" "stop_in_sleep s6 = stop_in_sleep s0" "max_wait s6 = 32"
    "current_wait s6 = 2" "opened s6 = 3" "connection_established s6"
    using f by (simp_all add: s6 s5 s4_def s3_def s2_def backoff_def)
  have c6: "connect_stream s6 = s6\<lparr>events := events s6 @ [AvOpen], opened := Suc (opened s6),
      connection_established := False, container := None\<rparr>"
    by (rule connect_stream_fails) (use f g in simp_all)
  define s8 where "s8 = s6\<lparr>events := events s6 @ [AvOpen, ConnectionLost], opened := 4,
      connection_established := False, container := None, is_reconnecting := True,
      virtual_cam_send_thread := enable_test_pattern (virtual_cam_send_thread s6)\<rparr>"
  have l6: "(lose_connection (connect_stream s6))\<lparr>is_reconnecting := True\<rparr> = s8"
    using g by (simp add: c6 lose_connection_def emit_def s8_def)
  define s9 where "s9 = s8\<lparr>events := events s8 @ concat (map failed_attempt_events [1..<1 + 2]),
        opened := opened s8 + 2, slept := slept s8 + 2, current_wait := backoff (1 + 2)\<rparr>"
  have "attempt_reconnection (2 + 0) s8 = attempt_reconnection 0 s9"
    unfolding s9_def
    by (rule attempt_reconnection_fails)
       (use f g in \<open>auto simp add: s8_def backoff_def\<close>)
  moreover have "running s9 \<and> should_reconnect s9 \<and> is_reconnecting s9"
    using g by (simp add: s9_def s8_def)
  ultimately have b: "attempt_reconnection 2 s8 = StillRunning s9" by simp
  have "run_iteration 2 s6 = and_then (attempt_reconnection 2 s8) close_container"
    using g(3) l6 by (simp add: run_iteration_def Let_def c6)
  then have r6: "run_iteration 2 s6 = StillRunning s9" using b by simp
  have "run (Suc 3) s0 = run 3 s6"
    using f(1) r0 unfolding s6_def by (rule run_step)
  moreover have "run (Suc 2) s6 = StillRunning s9" using g(1) r6 by (rule run_step_running)
  moreover have "Suc 3 = 4" and "Suc 2 = 3" by simp_all
  ultimately have "run 4 s0 = StillRunning s9" by (simp only:)
  moreover have "signals s9 =
     [ConnectionLost, ReconnectionAttempt 1, ReconnectionAttempt 2, ConnectionEstablished,
      ConnectionLost, ReconnectionAttempt 2, ReconnectionAttempt 4]"
    using f(11)
    by (simp add: signals_def s9_def s8_def s6 s5 s4_def s3_def s2_def
        failed_attempt_events_def backoff_def upt_rec)
  moreover have "current_wait s9 = 8" by (simp add: s9_def backoff_def)
  ultimately show ?thesis by (simp add: s0_def)
qed

section \<open>Stopping\<close>







end
